theory Spec2Isabelle
  imports Main
begin

section \<open>Strings of the host and the primitives used by \<open>src/src/App.tsx\<close>\<close>

text \<open>
  A string of the source is a sequence of UTF-16 code units, and every operation of the
  source works on code units: \<open>length\<close>, \<open>word[0]\<close>, \<open>substring\<close>, \<open>split\<close>, and the
  regular expression, which has no \<open>u\<close> flag. A code unit is modelled by its number.
  \<open>js\<close> writes a string of ASCII text.
\<close>

type_synonym code_unit = nat

type_synonym js_string = "code_unit list"

definition js :: "string \<Rightarrow> js_string" where
  "js s = map of_char s"

definition isLower :: "code_unit \<Rightarrow> bool" where
  \<comment> \<open>the class \<open>[a-z]\<close>\<close>
  "isLower c = (97 \<le> c \<and> c \<le> 122)"

definition isUpper :: "code_unit \<Rightarrow> bool" where
  \<comment> \<open>the class \<open>[A-Z]\<close>\<close>
  "isUpper c = (65 \<le> c \<and> c \<le> 90)"

definition isDigit :: "code_unit \<Rightarrow> bool" where
  \<comment> \<open>the class \<open>[0-9]\<close>\<close>
  "isDigit c = (48 \<le> c \<and> c \<le> 57)"

definition isWhiteSpace :: "code_unit \<Rightarrow> bool" where
  \<comment> \<open>what \<open>String.prototype.trim\<close> strips, white space and line terminators: TAB, LF,
      VT, FF, CR, SPACE, U+00A0, U+1680, U+2000 to U+200A, U+2028, U+2029, U+202F,
      U+205F, U+3000 and U+FEFF\<close>
  "isWhiteSpace c =
     (c \<in> {9, 10, 11, 12, 13, 32, 160, 5760, 8232, 8233, 8239, 8287, 12288, 65279} \<or>
      (8192 \<le> c \<and> c \<le> 8202))"

definition isLineTerminator :: "code_unit \<Rightarrow> bool" where
  \<comment> \<open>what the regular expression atom \<open>.\<close> refuses: LF, CR, U+2028 and U+2029\<close>
  "isLineTerminator c = (c \<in> {10, 13, 8232, 8233})"

definition isSpace :: "code_unit \<Rightarrow> bool" where
  \<comment> \<open>the separator of \<open>split(" ")\<close> and \<open>join(" ")\<close>, U+0020\<close>
  "isSpace c = (c = 32)"

definition trim :: "js_string \<Rightarrow> js_string" where
  "trim s = rev (dropWhile isWhiteSpace (rev (dropWhile isWhiteSpace s)))"

fun split_space :: "js_string \<Rightarrow> js_string list" where
  \<comment> \<open>\<open>s.split(" ")\<close>: the pieces between single spaces; \<open>"".split(" ")\<close> is \<open>[""]\<close>.
      The result is never the empty list (\<open>split_space_not_Nil\<close>), so \<open>hd\<close> and \<open>tl\<close>
      below are the first piece and the other pieces\<close>
  "split_space [] = [[]]"
| "split_space (c # cs) =
     (if c = 32 then [] # split_space cs
      else (c # hd (split_space cs)) # tl (split_space cs))"

fun join_space :: "js_string list \<Rightarrow> js_string" where
  \<comment> \<open>\<open>ws.join(" ")\<close>\<close>
  "join_space [] = []"
| "join_space [w] = w"
| "join_space (w # v # ws) = w @ 32 # join_space (v # ws)"

text \<open>
  The case mappings are tables of the host, and two of them follow its locale; the
  address test of \<open>.email\<close> is a regular expression of the validation library. None of
  them is in the source, so the model takes them as parameters. A case mapping takes a
  whole string: it may change the length (the uppercase of the one code unit U+00DF is
  \<open>SS\<close>) and depend on the neighbours of a code unit. What the model knows of a case
  mapping is the one fact that holds of those of every host: it maps no string that has
  a code unit to the empty string. \<open>toLowerCase\<close> is \<open>String.prototype.toLowerCase\<close>,
  \<open>toLocaleLowerCase\<close> and \<open>toLocaleUpperCase\<close> are the methods of these names in the
  locale of the host, \<open>isEmail\<close> is the address test.
\<close>

typedef case_map = "{f :: js_string \<Rightarrow> js_string. \<forall>s. s \<noteq> [] \<longrightarrow> f s \<noteq> []}"
  morphisms apply_map Abs_case_map
  by (rule exI [where x = id]) simp

setup_lifting type_definition_case_map

record platform =
  lowerCase :: case_map
  localeLowerCase :: case_map
  localeUpperCase :: case_map
  isEmail :: "js_string \<Rightarrow> bool"

definition toLowerCase :: "platform \<Rightarrow> js_string \<Rightarrow> js_string" where
  "toLowerCase P s = apply_map (lowerCase P) s"

definition toLocaleLowerCase :: "platform \<Rightarrow> js_string \<Rightarrow> js_string" where
  "toLocaleLowerCase P s = apply_map (localeLowerCase P) s"

definition toLocaleUpperCase :: "platform \<Rightarrow> js_string \<Rightarrow> js_string" where
  "toLocaleUpperCase P s = apply_map (localeUpperCase P) s"

section \<open>Outcomes: a call returns a value or throws\<close>

datatype 'a outcome = Threw | Returned 'a
  \<comment> \<open>\<open>Threw\<close> is the uncaught \<open>TypeError\<close> of reading a property of \<open>undefined\<close>\<close>

fun capitalize :: "platform \<Rightarrow> js_string \<Rightarrow> js_string outcome" where
  \<comment> \<open>\<open>word[0].toLocaleUpperCase().concat(word.substring(1))\<close>; \<open>word[0]\<close> of the empty
      string is \<open>undefined\<close>, and the method call on it throws\<close>
  "capitalize P [] = Threw"
| "capitalize P (c # cs) = Returned (toLocaleUpperCase P [c] @ cs)"

fun map_outcome :: "('a \<Rightarrow> 'b outcome) \<Rightarrow> 'a list \<Rightarrow> 'b list outcome" where
  \<comment> \<open>\<open>Array.prototype.map\<close> with a callback that may throw: left to right, the first
      throw ends the call\<close>
  "map_outcome f [] = Returned []"
| "map_outcome f (x # xs) =
     (case f x of
        Threw \<Rightarrow> Threw
      | Returned y \<Rightarrow>
          (case map_outcome f xs of Threw \<Rightarrow> Threw | Returned ys \<Rightarrow> Returned (y # ys)))"

definition name_transform :: "platform \<Rightarrow> js_string \<Rightarrow> js_string outcome" where
  \<comment> \<open>the callback given to \<open>.transform\<close> on \<open>name\<close> (lines 13 to 22)\<close>
  "name_transform P s =
     (case map_outcome (capitalize P) (split_space (trim (toLocaleLowerCase P s))) of
        Threw \<Rightarrow> Threw
      | Returned ws \<Rightarrow> Returned (join_space ws))"

section \<open>The schema \<open>createUserSchema\<close>\<close>

text \<open>
  The form data: every field of the form is a string, \<open>techs\<close> is the array of rows.
  \<open>UserRecord\<close> is the parsed output, \<open>z.infer<typeof createUserSchema>\<close>; it has the
  same shape.

  The schema is written with the combinators of the validation library and run by the
  resolver of the form (line 59). The model reads the combinators as the library runs
  them:
  \<^item> the checks of a string schema all run, in the order written, and each failed check
    adds an issue; \<open>.nonempty\<close> is \<open>.min(1)\<close> on the length;
  \<^item> the callback of \<open>.transform\<close> runs only when the schema before it raised no issue;
    what the callback throws is not caught, neither by the parse nor by the resolver;
  \<^item> an object schema parses its fields in the order of declaration, collects the issues
    of all of them, and succeeds when there is none;
  \<^item> an array schema checks its length, then parses every element;
  \<^item> the resolver keeps, for each field path, the first issue.
\<close>

record TechEntry =
  title :: js_string

record UserRecord =
  name :: js_string
  email :: js_string
  password :: js_string
  techs :: "TechEntry list"

text \<open>
  An issue is a field path with the kind of the failed check. The source gives every
  check its message; the kinds name them:
  \<^item> \<open>.nonempty\<close> on \<open>name\<close>, \<open>email\<close>, \<open>password\<close> and on a row's \<open>title\<close>: \<open>EmptyField\<close>
    (the four messages that say the field is required);
  \<^item> \<open>.email\<close>: \<open>InvalidFormat\<close> (the message on the format of the address);
  \<^item> \<open>.min(6)\<close> on \<open>password\<close>: \<open>TooShort\<close>;
  \<^item> \<open>.min(1)\<close> on \<open>techs\<close>: \<open>EmptyList\<close>.
  The path \<open>TechTitle i\<close> is \<open>techs.i.title\<close>.
\<close>

datatype error_kind = EmptyField | InvalidFormat | TooShort | EmptyList

datatype field_path = Name | Email | Password | Techs | TechTitle nat

type_synonym issue = "field_path \<times> error_kind"

datatype parse_result = Invalid "issue list" | Valid UserRecord

definition name_issues :: "js_string \<Rightarrow> issue list" where
  \<comment> \<open>\<open>z.string().nonempty(...)\<close>, that is \<open>min(1)\<close> on the length\<close>
  "name_issues s = (if length s < 1 then [(Name, EmptyField)] else [])"

definition parse_name :: "platform \<Rightarrow> js_string \<Rightarrow> (issue list \<times> js_string) outcome" where
  \<comment> \<open>the transform runs only on a string that passed the checks before it\<close>
  "parse_name P s =
     (if name_issues s \<noteq> [] then Returned (name_issues s, s)
      else (case name_transform P s of
              Threw \<Rightarrow> Threw
            | Returned t \<Rightarrow> Returned ([], t)))"

definition email_issues :: "platform \<Rightarrow> js_string \<Rightarrow> issue list" where
  \<comment> \<open>\<open>.nonempty(...)\<close> then \<open>.email(...)\<close>; both checks run, in this order\<close>
  "email_issues P s =
     (if length s < 1 then [(Email, EmptyField)] else []) @
     (if isEmail P s then [] else [(Email, InvalidFormat)])"

definition parse_email :: "platform \<Rightarrow> js_string \<Rightarrow> issue list \<times> js_string" where
  \<comment> \<open>\<open>.toLowerCase()\<close> comes last and rewrites the value\<close>
  "parse_email P s = (email_issues P s, toLowerCase P s)"

definition password_issues :: "js_string \<Rightarrow> issue list" where
  \<comment> \<open>\<open>.nonempty(...)\<close> then \<open>.min(6, ...)\<close>; both checks run, in this order\<close>
  "password_issues s =
     (if length s < 1 then [(Password, EmptyField)] else []) @
     (if length s < 6 then [(Password, TooShort)] else [])"

fun title_issues :: "nat \<Rightarrow> TechEntry list \<Rightarrow> issue list" where
  \<comment> \<open>the rows from index \<open>i\<close> on, each against \<open>z.object({ title: z.string().nonempty(...) })\<close>\<close>
  "title_issues i [] = []"
| "title_issues i (t # ts) =
     (if length (title t) < 1 then [(TechTitle i, EmptyField)] else []) @
     title_issues (Suc i) ts"

definition techs_issues :: "TechEntry list \<Rightarrow> issue list" where
  \<comment> \<open>\<open>z.array(...).min(1, ...)\<close>: the length check, then every row\<close>
  "techs_issues ts =
     (if length ts < 1 then [(Techs, EmptyList)] else []) @ title_issues 0 ts"

definition validate :: "platform \<Rightarrow> UserRecord \<Rightarrow> parse_result outcome" where
  \<comment> \<open>\<open>createUserSchema\<close> run on the form data: the fields in the order of the schema,
      the issues of all of them collected\<close>
  "validate P raw =
     (case parse_name P (name raw) of
        Threw \<Rightarrow> Threw
      | Returned (ni, n) \<Rightarrow>
          (let (ei, e) = parse_email P (email raw);
               issues = ni @ ei @ password_issues (password raw) @ techs_issues (techs raw)
           in Returned
                (if issues = [] then
                   Valid \<lparr>name = n, email = e, password = password raw, techs = techs raw\<rparr>
                 else Invalid issues)))"

definition schema_issues :: "platform \<Rightarrow> UserRecord \<Rightarrow> issue list" where
  \<comment> \<open>the issues of the four fields, in the order of the schema\<close>
  "schema_issues P raw =
     name_issues (name raw) @ email_issues P (email raw) @
     password_issues (password raw) @ techs_issues (techs raw)"

definition field_error :: "parse_result \<Rightarrow> field_path \<Rightarrow> error_kind option" where
  \<comment> \<open>the form's \<open>errors\<close> object, as the resolver fills it: the first issue of each path\<close>
  "field_error r p = (case r of Invalid issues \<Rightarrow> map_of issues p | Valid _ \<Rightarrow> None)"

section \<open>The password strength indicator\<close>

text \<open>
  \<open>isPasswordStrong\<close> (lines 74 to 77) is
  \<open>new RegExp("(?=.*[a-z])(?=.*[A-Z])(?=.*[0-9])(?=.*[^A-Za-z0-9])(?=.{8,})").test(userPassword)\<close>:
  five lookaheads and no anchor, so \<open>test\<close> tries every start position in turn.
  \<open>userPassword\<close> is the value of the password input (lines 74 and 143 to 148). The
  browser strips LF and CR from the value of such an input and nothing else, so the
  value has neither, and may have any other code unit.
\<close>

fun lookahead_class :: "(code_unit \<Rightarrow> bool) \<Rightarrow> js_string \<Rightarrow> bool" where
  \<comment> \<open>\<open>(?=.*[cls])\<close> at the start of the string: some code units that are not line
      terminators, then one of the class\<close>
  "lookahead_class cls [] = False"
| "lookahead_class cls (c # cs) =
     (cls c \<or> (\<not> isLineTerminator c \<and> lookahead_class cls cs))"

fun lookahead_dots :: "nat \<Rightarrow> js_string \<Rightarrow> bool" where
  \<comment> \<open>\<open>(?=.{n,})\<close> at the start of the string: \<open>n\<close> code units, none a line terminator\<close>
  "lookahead_dots 0 s = True"
| "lookahead_dots (Suc n) [] = False"
| "lookahead_dots (Suc n) (c # cs) = (\<not> isLineTerminator c \<and> lookahead_dots n cs)"

definition strong_at_start :: "js_string \<Rightarrow> bool" where
  "strong_at_start s =
     (lookahead_class isLower s \<and> lookahead_class isUpper s \<and> lookahead_class isDigit s \<and>
      lookahead_class (\<lambda>c. \<not> (isUpper c \<or> isLower c \<or> isDigit c)) s \<and>
      lookahead_dots 8 s)"

fun regexp_test :: "js_string \<Rightarrow> bool" where
  \<comment> \<open>the match is tried at the start, then one code unit further, up to the end\<close>
  "regexp_test [] = strong_at_start []"
| "regexp_test (c # cs) = (strong_at_start (c # cs) \<or> regexp_test cs)"

definition isPasswordStrong :: "js_string \<Rightarrow> bool" where
  "isPasswordStrong userPassword = regexp_test userPassword"

section \<open>The rows of \<open>techs\<close>\<close>

text \<open>
  \<open>append\<close> and \<open>remove\<close> are the operations \<open>useFieldArray\<close> returns for \<open>techs\<close>
  (lines 79 to 82). They belong to the form library; the source holds their calls only.
  \<open>append(v)\<close> puts \<open>v\<close> after the last row of the array held in the form values, which
  have the shape of \<^typ>\<open>UserRecord\<close>.
\<close>

definition append_tech :: "TechEntry \<Rightarrow> UserRecord \<Rightarrow> UserRecord" where
  "append_tech v st = st\<lparr>techs := techs st @ [v]\<rparr>"

definition addNewTech :: "UserRecord \<Rightarrow> UserRecord" where
  \<comment> \<open>lines 84 to 86: \<open>append({ title: "" })\<close>\<close>
  "addNewTech st = append_tech \<lparr>title = []\<rparr> st"

definition removeTechRow :: "int \<Rightarrow> UserRecord \<Rightarrow> UserRecord" where
  \<comment> \<open>Modelled from the spec: the body of \<open>remove\<close>, which the source calls in line 183
      with the index of a row on display and which is not in the source. The
      specification has \<open>removeTechRow(index)\<close> mutate the ordered sequence of rows, and
      "index must be within current bounds or the operation is a no-op"\<close>
  "removeTechRow index st =
     (if 0 \<le> index \<and> index < int (length (techs st)) then
        st\<lparr>techs := take (nat index) (techs st) @ drop (Suc (nat index)) (techs st)\<rparr>
      else st)"

section \<open>Notions of the specification\<close>

text \<open>
  The specification speaks of blank strings and of title case. \<open>spec_blank\<close> and
  \<open>spec_title_case\<close> follow its words: a string is blank when it is empty or only white
  space; in title case each word delimited by white space has its first character
  uppercased and the remainder lowercased. \<open>title_case\<close> is the walk over a lowercased
  string for any choice of delimiter, with the uppercase of one code unit as the host
  gives it; \<open>double_space\<close> finds two adjacent spaces.
\<close>

definition spec_blank :: "js_string \<Rightarrow> bool" where
  "spec_blank s = list_all isWhiteSpace s"

fun title_case :: "(code_unit \<Rightarrow> js_string) \<Rightarrow> (code_unit \<Rightarrow> bool) \<Rightarrow> bool \<Rightarrow> js_string \<Rightarrow> js_string"
  where
  \<comment> \<open>the flag says whether the next code unit starts a word\<close>
  "title_case up delim start [] = []"
| "title_case up delim start (c # cs) =
     (if delim c then c # title_case up delim True cs
      else (if start then up c else [c]) @ title_case up delim False cs)"

definition upper_first :: "platform \<Rightarrow> code_unit \<Rightarrow> js_string" where
  \<comment> \<open>\<open>toLocaleUpperCase\<close> of the string of one code unit\<close>
  "upper_first P c = toLocaleUpperCase P [c]"

definition spec_title_case :: "platform \<Rightarrow> js_string \<Rightarrow> js_string" where
  "spec_title_case P s = title_case (upper_first P) isWhiteSpace True (toLocaleLowerCase P s)"

fun double_space :: "js_string \<Rightarrow> bool" where
  "double_space (a # b # cs) = ((isSpace a \<and> isSpace b) \<or> double_space (b # cs))"
| "double_space cs = False"

definition capitalized :: "platform \<Rightarrow> js_string \<Rightarrow> js_string" where
  \<comment> \<open>what \<open>capitalize\<close> returns when it returns\<close>
  "capitalized P w = (case w of [] \<Rightarrow> [] | c # cs \<Rightarrow> toLocaleUpperCase P [c] @ cs)"

section \<open>A host for the worked examples\<close>

text \<open>
  The worked examples need a host. \<open>sample_host\<close> has the case mappings of the root
  locale on Basic Latin and Latin-1 and leaves every other code unit alone; its address
  test asks for text, \<open>@\<close>, text. The examples use strings on which these are what a
  host in a locale other than Turkish, Azeri or Lithuanian computes.
\<close>

definition lower_unit :: "code_unit \<Rightarrow> code_unit" where
  \<comment> \<open>\<open>A\<close> to \<open>Z\<close>, and U+00C0 to U+00DE but the multiplication sign\<close>
  "lower_unit c =
     (if (65 \<le> c \<and> c \<le> 90) \<or> (192 \<le> c \<and> c \<le> 222 \<and> c \<noteq> 215) then c + 32 else c)"

definition upper_units :: "code_unit \<Rightarrow> js_string" where
  \<comment> \<open>\<open>a\<close> to \<open>z\<close>, and U+00E0 to U+00FE but the division sign; the sharp s gives \<open>SS\<close>,
      the micro sign U+039C, and U+00FF gives U+0178\<close>
  "upper_units c =
     (if (97 \<le> c \<and> c \<le> 122) \<or> (224 \<le> c \<and> c \<le> 254 \<and> c \<noteq> 247) then [c - 32]
      else if c = 223 then [83, 83]
      else if c = 181 then [924]
      else if c = 255 then [376]
      else [c])"

definition simple_email :: "js_string \<Rightarrow> bool" where
  "simple_email s = (64 \<in> set s \<and> s \<noteq> [] \<and> hd s \<noteq> 64 \<and> last s \<noteq> 64)"

lift_definition sample_lower :: case_map is "map lower_unit"
  by simp

lift_definition sample_upper :: case_map is "\<lambda>s. concat (map upper_units s)"
proof -
  fix s :: js_string
  assume "s \<noteq> []"
  then obtain c cs where "s = c # cs" by (cases s) auto
  moreover have "upper_units c \<noteq> []" by (simp add: upper_units_def)
  ultimately show "concat (map upper_units s) \<noteq> []" by simp
qed

definition sample_host :: platform where
  "sample_host =
     \<lparr>lowerCase = sample_lower, localeLowerCase = sample_lower,
      localeUpperCase = sample_upper, isEmail = simple_email\<rparr>"

section \<open>Facts about the primitives\<close>

lemma space_isWhiteSpace: "isSpace c \<Longrightarrow> isWhiteSpace c"
  by (simp add: isSpace_def isWhiteSpace_def)

lemma trim_ends:
  assumes "trim s \<noteq> []"
  shows "\<not> isWhiteSpace (hd (trim s))" and "\<not> isWhiteSpace (last (trim s))"
proof -
  let ?u = "dropWhile isWhiteSpace s"
  let ?v = "dropWhile isWhiteSpace (rev ?u)"
  from assms have v: "?v \<noteq> []" by (simp add: trim_def)
  then have u: "?u \<noteq> []" by (metis dropWhile.simps(1) rev.simps(1))
  have "last (trim s) = hd ?v" by (simp add: trim_def last_rev)
  with hd_dropWhile [OF v] show "\<not> isWhiteSpace (last (trim s))" by simp
  have "hd (trim s) = last ?v" by (simp add: trim_def hd_rev)
  also have "\<dots> = last (rev ?u)"
    using v by (metis last_appendR takeWhile_dropWhile_id)
  also have "\<dots> = hd ?u" by (simp add: last_rev)
  finally show "\<not> isWhiteSpace (hd (trim s))" using hd_dropWhile [OF u] by simp
qed

lemma toLowerCase_not_Nil: "s \<noteq> [] \<Longrightarrow> toLowerCase P s \<noteq> []"
  using apply_map [of "lowerCase P"] by (simp add: toLowerCase_def)

lemma toLocaleUpperCase_not_Nil: "s \<noteq> [] \<Longrightarrow> toLocaleUpperCase P s \<noteq> []"
  using apply_map [of "localeUpperCase P"] by (simp add: toLocaleUpperCase_def)

lemma split_space_not_Nil [simp]: "split_space s \<noteq> []"
  by (induction s) auto

lemma split_space_hd_tl: "split_space s = hd (split_space s) # tl (split_space s)"
  by simp

lemma join_space_Cons:
  "join_space (w # ws) = (if ws = [] then w else w @ 32 # join_space ws)"
  by (cases ws) simp_all

lemma join_space_append_Cons: "join_space ((x @ w) # ws) = x @ join_space (w # ws)"
  by (simp add: join_space_Cons)

lemma capitalized_simps [simp]:
  "capitalized P [] = []" "capitalized P (c # cs) = toLocaleUpperCase P [c] @ cs"
  by (simp_all add: capitalized_def)

lemma map_outcome_capitalize:
  "map_outcome (capitalize P) ws =
     (if [] \<in> set ws then Threw else Returned (map (capitalized P) ws))"
proof (induction ws)
  case Nil
  then show ?case by simp
next
  case (Cons w ws)
  then show ?case by (cases w) auto
qed

lemma join_title_case:
  "join_space ((if start then capitalized P (hd (split_space s)) else hd (split_space s))
               # map (capitalized P) (tl (split_space s)))
   = title_case (upper_first P) isSpace start s"
proof (induction s arbitrary: start)
  case Nil
  then show ?case by simp
next
  case (Cons c cs)
  let ?L = "split_space cs"
  show ?case
  proof (cases "c = 32")
    case True
    have m: "map (capitalized P) ?L = capitalized P (hd ?L) # map (capitalized P) (tl ?L)"
      by (metis list.simps(9) split_space_hd_tl)
    have "join_space ([] # map (capitalized P) ?L) = 32 # join_space (map (capitalized P) ?L)"
      by (simp add: join_space_Cons)
    also have "\<dots> = 32 # title_case (upper_first P) isSpace True cs"
      using Cons.IH [of True] by (simp add: m)
    finally have j: "join_space ([] # map (capitalized P) ?L) =
        32 # title_case (upper_first P) isSpace True cs" .
    from True have "isSpace c" by (simp add: isSpace_def)
    with j True show ?thesis by simp
  next
    case False
    then have n: "\<not> isSpace c" by (simp add: isSpace_def)
    have a: "join_space ((toLocaleUpperCase P [c] @ hd ?L) # map (capitalized P) (tl ?L)) =
        toLocaleUpperCase P [c] @ join_space (hd ?L # map (capitalized P) (tl ?L))"
      by (rule join_space_append_Cons)
    have b: "join_space ((c # hd ?L) # map (capitalized P) (tl ?L)) =
        [c] @ join_space (hd ?L # map (capitalized P) (tl ?L))"
      using join_space_append_Cons [of "[c]"] by simp
    from False n Cons.IH [of False] a b show ?thesis
      by (simp add: upper_first_def)
  qed
qed

lemma name_transform_eq:
  "name_transform P s =
     (if [] \<in> set (split_space (trim (toLocaleLowerCase P s))) then Threw
      else Returned (title_case (upper_first P) isSpace True (trim (toLocaleLowerCase P s))))"
proof -
  let ?L = "split_space (trim (toLocaleLowerCase P s))"
  have "join_space (map (capitalized P) ?L) =
      title_case (upper_first P) isSpace True (trim (toLocaleLowerCase P s))"
    using join_title_case [of True P "trim (toLocaleLowerCase P s)"]
    by (metis (full_types) list.simps(9) split_space_hd_tl)
  then show ?thesis
    by (simp add: name_transform_def map_outcome_capitalize)
qed

lemma empty_word_iff:
  "([] \<in> set (split_space s) \<longleftrightarrow> s = [] \<or> isSpace (hd s) \<or> isSpace (last s) \<or> double_space s) \<and>
   ([] \<in> set (tl (split_space s)) \<longleftrightarrow> s \<noteq> [] \<and> (isSpace (last s) \<or> double_space s))"
proof (induction s)
  case Nil
  then show ?case by simp
next
  case (Cons c cs)
  then show ?case
    by (cases cs) (auto simp: isSpace_def)
qed

lemma trim_empty_word:
  "([] \<in> set (split_space (trim s))) = (trim s = [] \<or> double_space (trim s))"
proof (cases "trim s = []")
  case True
  then show ?thesis by simp
next
  case False
  from trim_ends [OF False] have "\<not> isSpace (hd (trim s))" "\<not> isSpace (last (trim s))"
    using space_isWhiteSpace by blast+
  with False show ?thesis using empty_word_iff [of "trim s"] by simp
qed

lemma title_case_not_Nil:
  assumes "s \<noteq> []" and "\<not> delim (hd s)" and "up (hd s) \<noteq> []"
  shows "title_case up delim True s \<noteq> []"
  using assms by (cases s) simp_all

section \<open>Facts about \<open>validate\<close>\<close>

lemma validate_eq:
  "validate P raw =
     (if name raw \<noteq> [] \<and>
         (trim (toLocaleLowerCase P (name raw)) = [] \<or>
          double_space (trim (toLocaleLowerCase P (name raw)))) then Threw
      else Returned
        (if schema_issues P raw = [] then
           Valid \<lparr>name = title_case (upper_first P) isSpace True
                           (trim (toLocaleLowerCase P (name raw))),
                  email = toLowerCase P (email raw),
                  password = password raw, techs = techs raw\<rparr>
         else Invalid (schema_issues P raw)))"
proof (cases "name raw = []")
  case True
  then show ?thesis
    by (simp add: validate_def parse_name_def name_issues_def parse_email_def schema_issues_def)
next
  case False
  then show ?thesis
    by (simp add: validate_def parse_name_def name_issues_def parse_email_def schema_issues_def
        name_transform_eq trim_empty_word)
qed

lemma validate_throws_iff:
  "(validate P raw = Threw) =
     (name raw \<noteq> [] \<and>
      (trim (toLocaleLowerCase P (name raw)) = [] \<or>
       double_space (trim (toLocaleLowerCase P (name raw)))))"
  by (simp add: validate_eq)

lemma validate_returns:
  assumes "name raw = [] \<or>
     (trim (toLocaleLowerCase P (name raw)) \<noteq> [] \<and>
      \<not> double_space (trim (toLocaleLowerCase P (name raw))))"
  shows "\<exists>r. validate P raw = Returned r"
  using assms by (auto simp: validate_eq)

lemma map_of_title_issues_other:
  "(\<And>j. p \<noteq> TechTitle j) \<Longrightarrow> map_of (title_issues i ts) p = None"
  by (induction i ts rule: title_issues.induct) auto

lemma map_of_title_issues:
  "map_of (title_issues i ts) (TechTitle j) =
     (if i \<le> j \<and> j < i + length ts \<and> title (ts ! (j - i)) = [] then Some EmptyField else None)"
proof (induction i ts rule: title_issues.induct)
  case (1 i)
  then show ?case by simp
next
  case (2 i t ts)
  show ?case
  proof (cases "j = i")
    case True
    then show ?thesis using 2 by simp
  next
    case False
    then show ?thesis using 2 by (auto simp: nth_Cons' Suc_diff_le)
  qed
qed

lemma title_issues_Nil: "(title_issues i ts = []) = (\<forall>t\<in>set ts. title t \<noteq> [])"
  by (induction i ts rule: title_issues.induct) auto

lemma schema_issues_Nil:
  "(schema_issues P raw = []) =
     (name raw \<noteq> [] \<and> email raw \<noteq> [] \<and> isEmail P (email raw) \<and> 6 \<le> length (password raw) \<and>
      techs raw \<noteq> [] \<and> (\<forall>t\<in>set (techs raw). title t \<noteq> []))"
  by (auto simp: schema_issues_def name_issues_def email_issues_def password_issues_def
      techs_issues_def title_issues_Nil)

lemma field_error_Password:
  "map_of (schema_issues P raw) Password =
     (if password raw = [] then Some EmptyField
      else if length (password raw) < 6 then Some TooShort else None)"
  by (simp add: schema_issues_def name_issues_def email_issues_def password_issues_def
      techs_issues_def map_of_title_issues_other)

lemma field_error_Name:
  "map_of (schema_issues P raw) Name = (if name raw = [] then Some EmptyField else None)"
  by (simp add: schema_issues_def name_issues_def email_issues_def password_issues_def
      techs_issues_def map_of_title_issues_other)

lemma field_error_Techs:
  "map_of (schema_issues P raw) Techs = (if techs raw = [] then Some EmptyList else None)"
  by (simp add: schema_issues_def name_issues_def email_issues_def password_issues_def
      techs_issues_def map_of_title_issues_other)

lemma field_error_TechTitle:
  "map_of (schema_issues P raw) (TechTitle j) =
     (if j < length (techs raw) \<and> title (techs raw ! j) = [] then Some EmptyField else None)"
  by (simp add: schema_issues_def name_issues_def email_issues_def password_issues_def
      techs_issues_def map_of_title_issues)

lemma field_error_Returned:
  "validate P raw = Returned r \<Longrightarrow> field_error r p = map_of (schema_issues P raw) p"
  by (auto simp: validate_eq field_error_def split: if_splits)

lemma name_EmptyField_iff:
  assumes "validate P raw = Returned r"
  shows "(field_error r Name = Some EmptyField) = (name raw = [])"
  by (simp add: field_error_Returned [OF assms] field_error_Name)

section \<open>Facts about the regular expression\<close>



lemma lookahead_dots_take:
  "lookahead_dots n s = (n \<le> length s \<and> (\<forall>c\<in>set (take n s). \<not> isLineTerminator c))"
  by (induction n s rule: lookahead_dots.induct) auto



section \<open>Facts about the rows\<close>

lemma addNewTech_frame:
  "techs (addNewTech st) = techs st @ [\<lparr>title = []\<rparr>] \<and> name (addNewTech st) = name st \<and>
   email (addNewTech st) = email st \<and> password (addNewTech st) = password st"
  by (simp add: addNewTech_def append_tech_def)

lemma addNewTech_title_issue:
  assumes "validate P (addNewTech st) = Returned r"
  shows "field_error r (TechTitle (length (techs st))) = Some EmptyField"
  by (simp add: field_error_Returned [OF assms] field_error_TechTitle addNewTech_frame nth_append)

section \<open>Running the model on the worked examples\<close>

lemmas run = js_def trim_def sample_host_def toLowerCase_def toLocaleLowerCase_def
  toLocaleUpperCase_def sample_lower.rep_eq sample_upper.rep_eq lower_unit_def upper_units_def simple_email_def
  isWhiteSpace_def isSpace_def isLineTerminator_def isLower_def isUpper_def isDigit_def
  validate_def parse_name_def name_transform_def name_issues_def parse_email_def email_issues_def
  password_issues_def techs_issues_def field_error_def spec_blank_def spec_title_case_def
  upper_first_def addNewTech_def append_tech_def isPasswordStrong_def strong_at_start_def
  lookahead_dots_take

section \<open>The claims on \<open>validate\<close>\<close>

text \<open>
  Claim C1, as amended. For every input whose name is not empty and, lowercased and
  trimmed, is not empty and has no two adjacent spaces, whose email is not empty and
  passes the address test, whose password has at least 6 characters, and whose \<open>techs\<close>
  has at least one row and no row with an empty title, \<open>validate\<close> returns success; in
  the record it returns the name is the lowercased, trimmed name with the first
  character of every word between single spaces uppercased, the email is lowercased,
  and the password and the rows are those of the input.
\<close>

theorem valid_input_accepted:
  assumes "name raw \<noteq> []"
    and "trim (toLocaleLowerCase P (name raw)) \<noteq> []"
    and "\<not> double_space (trim (toLocaleLowerCase P (name raw)))"
    and "email raw \<noteq> []" and "isEmail P (email raw)"
    and "6 \<le> length (password raw)"
    and "techs raw \<noteq> []" and "\<forall>t\<in>set (techs raw). title t \<noteq> []"
  shows "validate P raw =
     Returned (Valid \<lparr>name = title_case (upper_first P) isSpace True
                               (trim (toLocaleLowerCase P (name raw))),
                      email = toLowerCase P (email raw),
                      password = password raw, techs = techs raw\<rparr>)"
proof -
  from assms have "schema_issues P raw = []" by (simp add: schema_issues_Nil)
  with assms(2,3) show ?thesis by (simp add: validate_eq)
qed

text \<open>The example of the specification is an instance.\<close>

theorem valid_input_accepted_witness:
  "js ''john doe'' \<noteq> [] \<and>
   trim (toLocaleLowerCase sample_host (js ''john doe'')) \<noteq> [] \<and>
   \<not> double_space (trim (toLocaleLowerCase sample_host (js ''john doe''))) \<and>
   isEmail sample_host (js ''JOHN@EXAMPLE.COM'') \<and> 6 \<le> length (js ''secret1'') \<and>
   validate sample_host
     \<lparr>name = js ''john doe'', email = js ''JOHN@EXAMPLE.COM'', password = js ''secret1'',
      techs = [\<lparr>title = js ''Go''\<rparr>]\<rparr> =
   Returned (Valid \<lparr>name = js ''John Doe'', email = js ''john@example.com'',
                    password = js ''secret1'', techs = [\<lparr>title = js ''Go''\<rparr>]\<rparr>)"
proof -
  let ?raw = "\<lparr>name = js ''john doe'', email = js ''JOHN@EXAMPLE.COM'', password = js ''secret1'',
      techs = [\<lparr>title = js ''Go''\<rparr>]\<rparr>"
  have s1: "name ?raw = js ''john doe''" and s2: "email ?raw = js ''JOHN@EXAMPLE.COM''"
    and s3: "password ?raw = js ''secret1''" and s4: "techs ?raw = [\<lparr>title = js ''Go''\<rparr>]"
    by simp_all
  have g0: "js ''john doe'' \<noteq> []" by (simp add: run)
  have g1: "trim (toLocaleLowerCase sample_host (js ''john doe'')) \<noteq> []" by (simp add: run)
  have g2: "\<not> double_space (trim (toLocaleLowerCase sample_host (js ''john doe'')))"
    by (simp add: run)
  have g3: "js ''JOHN@EXAMPLE.COM'' \<noteq> []" by (simp add: run)
  have g4: "isEmail sample_host (js ''JOHN@EXAMPLE.COM'')" by (simp add: run)
  have g5: "6 \<le> length (js ''secret1'')" by (simp add: run)
  have h0: "name ?raw \<noteq> []" unfolding s1 by (rule g0)
  have h1: "trim (toLocaleLowerCase sample_host (name ?raw)) \<noteq> []" unfolding s1 by (rule g1)
  have h2: "\<not> double_space (trim (toLocaleLowerCase sample_host (name ?raw)))"
    unfolding s1 by (rule g2)
  have h3: "email ?raw \<noteq> []" unfolding s2 by (rule g3)
  have h4: "isEmail sample_host (email ?raw)" unfolding s2 by (rule g4)
  have h5: "6 \<le> length (password ?raw)" unfolding s3 by (rule g5)
  have h6: "techs ?raw \<noteq> []" by simp
  have h7: "\<forall>t\<in>set (techs ?raw). title t \<noteq> []" unfolding s4 by (simp add: run)
  have n: "title_case (upper_first sample_host) isSpace True
             (trim (toLocaleLowerCase sample_host (js ''john doe''))) = js ''John Doe''"
    by (simp add: run)
  have e: "toLowerCase sample_host (js ''JOHN@EXAMPLE.COM'') = js ''john@example.com''"
    by (simp add: run)
  have "validate sample_host ?raw =
     Returned (Valid \<lparr>name = js ''John Doe'', email = js ''john@example.com'',
                      password = js ''secret1'', techs = [\<lparr>title = js ''Go''\<rparr>]\<rparr>)"
    using valid_input_accepted [OF h0 h1 h2 h3 h4 h5 h6 h7]
    unfolding s1 s2 s3 s4 n e .
  with g0 g1 g2 g4 g5 show ?thesis by (intro conjI)
qed

text \<open>
  Claim C1 as first stated asks for one row with a non-empty title. The schema checks
  every row: with the rows \<open>Go\<close> and the empty title, the other fields as in the example,
  \<open>validate\<close> returns the issue of the second row.
\<close>

theorem existing_title_not_enough:
  "js ''john doe'' \<noteq> [] \<and> isEmail sample_host (js ''JOHN@EXAMPLE.COM'') \<and>
   6 \<le> length (js ''secret1'') \<and> title (\<lparr>title = js ''Go''\<rparr>) \<noteq> [] \<and>
   validate sample_host
     \<lparr>name = js ''john doe'', email = js ''JOHN@EXAMPLE.COM'', password = js ''secret1'',
      techs = [\<lparr>title = js ''Go''\<rparr>, \<lparr>title = []\<rparr>]\<rparr> =
   Returned (Invalid [(TechTitle 1, EmptyField)])"
  by (simp add: run)

text \<open>
  Claim C2 says that \<open>validate\<close> never throws. It does: on a name with two adjacent
  spaces \<open>split\<close> yields an empty word, \<open>word[0]\<close> is \<open>undefined\<close>, and the call of
  \<open>toLocaleUpperCase\<close> on it throws. (\<open>validate_throws_iff\<close> gives all such names.)
\<close>

theorem validate_throws_on_double_space:
  "validate sample_host
     \<lparr>name = js ''john  doe'', email = js ''john@example.com'', password = js ''secret1'',
      techs = [\<lparr>title = js ''Go''\<rparr>]\<rparr> = Threw"
  by (simp add: run)

text \<open>
  Claim C3, as amended. For every name that, lowercased and trimmed, is not empty and
  has no two adjacent spaces, the transform returns the lowercased, trimmed name with
  the first character of every word between single spaces uppercased: a character at
  the start or right after a space is replaced by its uppercase, every other character
  stays as lowercased. This is the name of every record that \<open>validate\<close> returns for it.
\<close>

theorem name_in_title_case:
  assumes "trim (toLocaleLowerCase P (name raw)) \<noteq> []"
    and "\<not> double_space (trim (toLocaleLowerCase P (name raw)))"
  shows "name_transform P (name raw) =
           Returned (title_case (upper_first P) isSpace True
                       (trim (toLocaleLowerCase P (name raw)))) \<and>
         (\<forall>u. validate P raw = Returned (Valid u) \<longrightarrow>
              name u = title_case (upper_first P) isSpace True
                         (trim (toLocaleLowerCase P (name raw))))"
  using assms by (auto simp: name_transform_eq trim_empty_word validate_eq split: if_splits)

text \<open>
  An instance with white space around the name, mixed case and accents: the name
  \<open>JO\<close>, U+00C3, \<open>O\<close>, space, U+00E9, \<open>lan\<close> between spaces becomes \<open>Jo\<close>, U+00E3, \<open>o\<close>,
  space, U+00C9, \<open>lan\<close>.
\<close>

theorem name_in_title_case_witness:
  "trim (toLocaleLowerCase sample_host (js ''  JO'' @ [195] @ js ''O '' @ [233] @ js ''lan '')) \<noteq> [] \<and>
   \<not> double_space
       (trim (toLocaleLowerCase sample_host (js ''  JO'' @ [195] @ js ''O '' @ [233] @ js ''lan ''))) \<and>
   name_transform sample_host (js ''  JO'' @ [195] @ js ''O '' @ [233] @ js ''lan '') =
     Returned (js ''Jo'' @ [227] @ js ''o '' @ [201] @ js ''lan'') \<and>
   validate sample_host
     \<lparr>name = js ''  JO'' @ [195] @ js ''O '' @ [233] @ js ''lan '', email = js ''m@x.org'',
      password = js ''123456'', techs = [\<lparr>title = js ''Elm''\<rparr>]\<rparr> =
   Returned (Valid \<lparr>name = js ''Jo'' @ [227] @ js ''o '' @ [201] @ js ''lan'',
                    email = js ''m@x.org'', password = js ''123456'',
                    techs = [\<lparr>title = js ''Elm''\<rparr>]\<rparr>)"
proof -
  let ?n = "js ''  JO'' @ [195] @ js ''O '' @ [233] @ js ''lan ''"
  let ?m = "js ''Jo'' @ [227] @ js ''o '' @ [201] @ js ''lan''"
  let ?raw = "\<lparr>name = ?n, email = js ''m@x.org'', password = js ''123456'',
      techs = [\<lparr>title = js ''Elm''\<rparr>]\<rparr>"
  let ?u = "\<lparr>name = ?m, email = js ''m@x.org'', password = js ''123456'',
      techs = [\<lparr>title = js ''Elm''\<rparr>]\<rparr>"
  have s1: "name ?raw = ?n" by simp
  have g1: "trim (toLocaleLowerCase sample_host ?n) \<noteq> []" by (simp add: run)
  have g2: "\<not> double_space (trim (toLocaleLowerCase sample_host ?n))" by (simp add: run)
  have h1: "trim (toLocaleLowerCase sample_host (name ?raw)) \<noteq> []" unfolding s1 by (rule g1)
  have h2: "\<not> double_space (trim (toLocaleLowerCase sample_host (name ?raw)))"
    unfolding s1 by (rule g2)
  have n: "title_case (upper_first sample_host) isSpace True
             (trim (toLocaleLowerCase sample_host ?n)) = ?m"
    by (simp add: run)
  have v: "validate sample_host ?raw = Returned (Valid ?u)" by (simp add: run)
  note c = name_in_title_case [OF h1 h2, unfolded s1 n]
  from c have c1: "name_transform sample_host ?n = Returned ?m" by (rule conjunct1)
  from c v have "name ?u = ?m" by blast
  with g1 g2 c1 v show ?thesis by (intro conjI)
qed

text \<open>
  Claim C3 as first stated takes every white space as a delimiter. The transform splits
  on the space only: after a tabulator the word is not capitalized.
\<close>

theorem tab_separated_words_not_capitalized:
  "\<not> spec_blank (js ''john'' @ [9] @ js ''doe'') \<and>
   validate sample_host
     \<lparr>name = js ''john'' @ [9] @ js ''doe'', email = js ''john@example.com'',
      password = js ''secret1'', techs = [\<lparr>title = js ''Go''\<rparr>]\<rparr> =
   Returned (Valid \<lparr>name = js ''John'' @ [9] @ js ''doe'', email = js ''john@example.com'',
                    password = js ''secret1'', techs = [\<lparr>title = js ''Go''\<rparr>]\<rparr>) \<and>
   spec_title_case sample_host (js ''john'' @ [9] @ js ''doe'') = js ''John'' @ [9] @ js ''Doe'' \<and>
   js ''John'' @ [9] @ js ''doe'' \<noteq> js ''John'' @ [9] @ js ''Doe''"
  by (simp add: run)

text \<open>
  Claim C5 says that a name of white space only fails with \<open>EmptyField\<close>. Such a name
  passes \<open>.nonempty\<close>; trimmed it is the empty string, whose only word is empty, and the
  transform throws. (For the inputs on which \<open>validate\<close> returns, \<open>name_EmptyField_iff\<close>
  says that the name has the issue exactly when it is the empty string.)
\<close>

theorem validate_throws_on_blank_name:
  "spec_blank (js ''   '') \<and>
   validate sample_host
     \<lparr>name = js ''   '', email = js ''john@example.com'', password = js ''secret1'',
      techs = [\<lparr>title = js ''Go''\<rparr>]\<rparr> = Threw"
  by (simp add: run)

text \<open>
  Claim C6, as amended. For every input on whose name the transform does not throw (the
  name is empty, or, lowercased and trimmed, it is not empty and has no two adjacent
  spaces), \<open>validate\<close> returns, and the error of the password field is \<open>EmptyField\<close>
  exactly when the password is the empty string, \<open>TooShort\<close> exactly when it has 1 to 5
  characters (white space counts as any other character), and there is none exactly
  when it has 6 characters or more.
\<close>

theorem password_rule:
  assumes "name raw = [] \<or>
     (trim (toLocaleLowerCase P (name raw)) \<noteq> [] \<and>
      \<not> double_space (trim (toLocaleLowerCase P (name raw))))"
  shows "\<exists>r. validate P raw = Returned r \<and>
     (field_error r Password = Some EmptyField) = (password raw = []) \<and>
     (field_error r Password = Some TooShort) =
        (password raw \<noteq> [] \<and> length (password raw) < 6) \<and>
     (field_error r Password = None) = (6 \<le> length (password raw))"
proof -
  from validate_returns [OF assms] obtain r where r: "validate P raw = Returned r" ..
  have "field_error r Password =
     (if password raw = [] then Some EmptyField
      else if length (password raw) < 6 then Some TooShort else None)"
    by (simp only: field_error_Returned [OF r] field_error_Password)
  with r show ?thesis by auto
qed

text \<open>The example of the specification, the password \<open>abc\<close>, is an instance.\<close>

theorem password_rule_witness:
  "trim (toLocaleLowerCase sample_host (js ''ana'')) \<noteq> [] \<and>
   \<not> double_space (trim (toLocaleLowerCase sample_host (js ''ana''))) \<and>
   validate sample_host
     \<lparr>name = js ''ana'', email = js ''ana@example.com'', password = js ''abc'',
      techs = [\<lparr>title = js ''Go''\<rparr>]\<rparr> = Returned (Invalid [(Password, TooShort)]) \<and>
   field_error (Invalid [(Password, TooShort)]) Password = Some TooShort"
proof -
  let ?raw = "\<lparr>name = js ''ana'', email = js ''ana@example.com'', password = js ''abc'',
      techs = [\<lparr>title = js ''Go''\<rparr>]\<rparr>"
  have s1: "name ?raw = js ''ana''" and s3: "password ?raw = js ''abc''" by simp_all
  have g1: "trim (toLocaleLowerCase sample_host (js ''ana'')) \<noteq> []" by (simp add: run)
  have g2: "\<not> double_space (trim (toLocaleLowerCase sample_host (js ''ana'')))" by (simp add: run)
  have h: "name ?raw = [] \<or>
     (trim (toLocaleLowerCase sample_host (name ?raw)) \<noteq> [] \<and>
      \<not> double_space (trim (toLocaleLowerCase sample_host (name ?raw))))"
    unfolding s1 using g1 g2 by blast
  have v: "validate sample_host ?raw = Returned (Invalid [(Password, TooShort)])" by (simp add: run)
  have p: "js ''abc'' \<noteq> [] \<and> length (js ''abc'') < 6" by (simp add: run)
  from password_rule [OF h] obtain r
    where r: "validate sample_host ?raw = Returned r"
      and t: "(field_error r Password = Some TooShort) =
        (password ?raw \<noteq> [] \<and> length (password ?raw) < 6)"
    by blast
  from r v have e: "r = Invalid [(Password, TooShort)]" by simp
  from t p have "field_error r Password = Some TooShort" unfolding s3 by blast
  then have "field_error (Invalid [(Password, TooShort)]) Password = Some TooShort"
    unfolding e .
  with g1 g2 v show ?thesis by (intro conjI)
qed

text \<open>
  Claim C6 as first stated gives \<open>EmptyField\<close> to every blank password. A password of
  three spaces is blank, and its error is \<open>TooShort\<close>.
\<close>

theorem blank_password_is_too_short:
  "spec_blank (js ''   '') \<and>
   validate sample_host
     \<lparr>name = js ''ana'', email = js ''ana@example.com'', password = js ''   '',
      techs = [\<lparr>title = js ''Go''\<rparr>]\<rparr> = Returned (Invalid [(Password, TooShort)]) \<and>
   field_error (Invalid [(Password, TooShort)]) Password = Some TooShort \<and>
   field_error (Invalid [(Password, TooShort)]) Password \<noteq> Some EmptyField"
  by (simp add: run)

text \<open>
  Claim C7, as amended. For every input on whose name the transform does not throw,
  \<open>validate\<close> returns; the error of \<open>techs\<close> is \<open>EmptyList\<close> exactly when there is no
  row; the error of the title of row \<open>i\<close> is \<open>EmptyField\<close> exactly when the row exists
  and its title is the empty string; with at least one row and no empty title neither
  \<open>techs\<close> nor any title has an error.
\<close>

theorem techs_rule:
  assumes "name raw = [] \<or>
     (trim (toLocaleLowerCase P (name raw)) \<noteq> [] \<and>
      \<not> double_space (trim (toLocaleLowerCase P (name raw))))"
  shows "\<exists>r. validate P raw = Returned r \<and>
     (field_error r Techs = Some EmptyList) = (techs raw = []) \<and>
     (\<forall>i. (field_error r (TechTitle i) = Some EmptyField) =
           (i < length (techs raw) \<and> title (techs raw ! i) = [])) \<and>
     (techs raw \<noteq> [] \<and> (\<forall>t\<in>set (techs raw). title t \<noteq> []) \<longrightarrow>
        field_error r Techs = None \<and> (\<forall>i. field_error r (TechTitle i) = None))"
proof -
  from validate_returns [OF assms] obtain r where r: "validate P raw = Returned r" ..
  have a: "field_error r Techs = (if techs raw = [] then Some EmptyList else None)"
    by (simp only: field_error_Returned [OF r] field_error_Techs)
  have b: "field_error r (TechTitle i) =
     (if i < length (techs raw) \<and> title (techs raw ! i) = [] then Some EmptyField else None)"
    for i
    by (simp only: field_error_Returned [OF r] field_error_TechTitle)
  have "(techs raw \<noteq> [] \<and> (\<forall>t\<in>set (techs raw). title t \<noteq> []) \<longrightarrow>
        field_error r Techs = None \<and> (\<forall>i. field_error r (TechTitle i) = None))"
    by (simp add: a b)
  moreover have "(field_error r Techs = Some EmptyList) = (techs raw = [])"
    by (simp add: a)
  moreover have "\<forall>i. (field_error r (TechTitle i) = Some EmptyField) =
           (i < length (techs raw) \<and> title (techs raw ! i) = [])"
    by (simp add: b)
  ultimately show ?thesis using r by blast
qed

text \<open>Two instances: an empty title in the second row, and a single good row.\<close>

theorem techs_rule_witness:
  "trim (toLocaleLowerCase sample_host (js ''ana'')) \<noteq> [] \<and>
   \<not> double_space (trim (toLocaleLowerCase sample_host (js ''ana''))) \<and>
   validate sample_host
     \<lparr>name = js ''ana'', email = js ''ana@example.com'', password = js ''secret1'',
      techs = [\<lparr>title = js ''Go''\<rparr>, \<lparr>title = []\<rparr>]\<rparr> =
     Returned (Invalid [(TechTitle 1, EmptyField)]) \<and>
   field_error (Invalid [(TechTitle 1, EmptyField)]) (TechTitle 1) = Some EmptyField \<and>
   field_error (Invalid [(TechTitle 1, EmptyField)]) Techs \<noteq> Some EmptyList \<and>
   validate sample_host
     \<lparr>name = js ''ana'', email = js ''ana@example.com'', password = js ''secret1'',
      techs = [\<lparr>title = js ''Go''\<rparr>]\<rparr> =
     Returned (Valid \<lparr>name = js ''Ana'', email = js ''ana@example.com'',
      password = js ''secret1'', techs = [\<lparr>title = js ''Go''\<rparr>]\<rparr>) \<and>
   field_error (Valid \<lparr>name = js ''Ana'', email = js ''ana@example.com'',
      password = js ''secret1'', techs = [\<lparr>title = js ''Go''\<rparr>]\<rparr>) Techs = None \<and>
   field_error (Valid \<lparr>name = js ''Ana'', email = js ''ana@example.com'',
      password = js ''secret1'', techs = [\<lparr>title = js ''Go''\<rparr>]\<rparr>) (TechTitle 0) = None"
proof -
  let ?bad = "\<lparr>name = js ''ana'', email = js ''ana@example.com'', password = js ''secret1'',
      techs = [\<lparr>title = js ''Go''\<rparr>, \<lparr>title = []\<rparr>]\<rparr>"
  let ?good = "\<lparr>name = js ''ana'', email = js ''ana@example.com'', password = js ''secret1'',
      techs = [\<lparr>title = js ''Go''\<rparr>]\<rparr>"
  let ?u = "\<lparr>name = js ''Ana'', email = js ''ana@example.com'', password = js ''secret1'',
      techs = [\<lparr>title = js ''Go''\<rparr>]\<rparr>"
  have g1: "trim (toLocaleLowerCase sample_host (js ''ana'')) \<noteq> []" by (simp add: run)
  have g2: "\<not> double_space (trim (toLocaleLowerCase sample_host (js ''ana'')))" by (simp add: run)
  have sb: "name ?bad = js ''ana''" and sg: "name ?good = js ''ana''" by simp_all
  have hb: "name ?bad = [] \<or>
     (trim (toLocaleLowerCase sample_host (name ?bad)) \<noteq> [] \<and>
      \<not> double_space (trim (toLocaleLowerCase sample_host (name ?bad))))"
    unfolding sb using g1 g2 by blast
  have hg: "name ?good = [] \<or>
     (trim (toLocaleLowerCase sample_host (name ?good)) \<noteq> [] \<and>
      \<not> double_space (trim (toLocaleLowerCase sample_host (name ?good))))"
    unfolding sg using g1 g2 by blast
  have vb: "validate sample_host ?bad = Returned (Invalid [(TechTitle 1, EmptyField)])"
    by (simp add: run)
  have vg: "validate sample_host ?good = Returned (Valid ?u)" by (simp add: run)
  from techs_rule [OF hb] obtain r
    where r: "validate sample_host ?bad = Returned r"
      and l: "(field_error r Techs = Some EmptyList) = (techs ?bad = [])"
      and t: "\<forall>i. (field_error r (TechTitle i) = Some EmptyField) =
           (i < length (techs ?bad) \<and> title (techs ?bad ! i) = [])"
    by blast
  from r vb have e: "r = Invalid [(TechTitle 1, EmptyField)]" by simp
  from t have "(field_error r (TechTitle 1) = Some EmptyField) =
           (1 < length (techs ?bad) \<and> title (techs ?bad ! 1) = [])" ..
  then have b1: "field_error (Invalid [(TechTitle 1, EmptyField)]) (TechTitle 1) = Some EmptyField"
    unfolding e by simp
  from l have b2: "field_error (Invalid [(TechTitle 1, EmptyField)]) Techs \<noteq> Some EmptyList"
    unfolding e by simp
  from techs_rule [OF hg] obtain r'
    where r': "validate sample_host ?good = Returned r'"
      and n: "techs ?good \<noteq> [] \<and> (\<forall>t\<in>set (techs ?good). title t \<noteq> []) \<longrightarrow>
        field_error r' Techs = None \<and> (\<forall>i. field_error r' (TechTitle i) = None)"
    by blast
  from r' vg have e': "r' = Valid ?u" by simp
  have "js ''Go'' \<noteq> []" by (simp add: run)
  then have "techs ?good \<noteq> [] \<and> (\<forall>t\<in>set (techs ?good). title t \<noteq> [])" by simp
  with n have "field_error r' Techs = None \<and> (\<forall>i. field_error r' (TechTitle i) = None)" ..
  then have c1: "field_error (Valid ?u) Techs = None"
    and c2: "field_error (Valid ?u) (TechTitle 0) = None"
    unfolding e' by blast+
  from g1 g2 vb b1 b2 vg c1 c2 show ?thesis by (intro conjI)
qed

text \<open>
  Claim C7 as first stated gives \<open>EmptyField\<close> to every blank title. A title of one space
  is blank, and the input is accepted.
\<close>

theorem blank_title_is_accepted:
  "spec_blank (js '' '') \<and>
   validate sample_host
     \<lparr>name = js ''ana'', email = js ''ana@example.com'', password = js ''secret1'',
      techs = [\<lparr>title = js '' ''\<rparr>]\<rparr> =
     Returned (Valid \<lparr>name = js ''Ana'', email = js ''ana@example.com'',
      password = js ''secret1'', techs = [\<lparr>title = js '' ''\<rparr>]\<rparr>) \<and>
   field_error (Valid \<lparr>name = js ''Ana'', email = js ''ana@example.com'',
      password = js ''secret1'', techs = [\<lparr>title = js '' ''\<rparr>]\<rparr>) (TechTitle 0) = None"
  by (simp add: run)

text \<open>
  Claim C8. Whenever \<open>validate\<close> succeeds, the name and the email of the record it
  returns are not empty.
\<close>

theorem normalized_fields_nonempty:
  assumes "validate P raw = Returned (Valid u)"
  shows "name u \<noteq> [] \<and> email u \<noteq> []"
proof -
  let ?t = "trim (toLocaleLowerCase P (name raw))"
  from assms have i: "schema_issues P raw = []"
    and u: "u = \<lparr>name = title_case (upper_first P) isSpace True ?t,
                  email = toLowerCase P (email raw),
                  password = password raw, techs = techs raw\<rparr>"
    and n: "\<not> (name raw \<noteq> [] \<and> (?t = [] \<or> double_space ?t))"
    by (auto simp: validate_eq split: if_splits)
  from i have "name raw \<noteq> []" and e: "email raw \<noteq> []" by (simp_all add: schema_issues_Nil)
  with n have t: "?t \<noteq> []" by blast
  from trim_ends(1) [OF t] have d: "\<not> isSpace (hd ?t)" using space_isWhiteSpace by blast
  have "upper_first P (hd ?t) \<noteq> []"
    by (simp add: upper_first_def toLocaleUpperCase_not_Nil)
  with t d have "title_case (upper_first P) isSpace True ?t \<noteq> []"
    by (rule title_case_not_Nil)
  moreover from e have "toLowerCase P (email raw) \<noteq> []"
    by (rule toLowerCase_not_Nil)
  ultimately show ?thesis unfolding u by simp
qed

theorem normalized_fields_nonempty_witness:
  "validate sample_host
     \<lparr>name = js ''ada'', email = js ''Ada@Example.org'', password = js ''engine1'',
      techs = [\<lparr>title = js ''Rust''\<rparr>]\<rparr> =
   Returned (Valid \<lparr>name = js ''Ada'', email = js ''ada@example.org'',
                    password = js ''engine1'', techs = [\<lparr>title = js ''Rust''\<rparr>]\<rparr>) \<and>
   js ''Ada'' \<noteq> [] \<and> js ''ada@example.org'' \<noteq> []"
proof -
  let ?u = "\<lparr>name = js ''Ada'', email = js ''ada@example.org'', password = js ''engine1'',
                    techs = [\<lparr>title = js ''Rust''\<rparr>]\<rparr>"
  have v: "validate sample_host
     \<lparr>name = js ''ada'', email = js ''Ada@Example.org'', password = js ''engine1'',
      techs = [\<lparr>title = js ''Rust''\<rparr>]\<rparr> = Returned (Valid ?u)" by (simp add: run)
  from normalized_fields_nonempty [OF v]
  have "js ''Ada'' \<noteq> [] \<and> js ''ada@example.org'' \<noteq> []"
    by simp
  with v show ?thesis by (intro conjI) auto
qed

section \<open>The claim on \<open>isPasswordStrong\<close>\<close>




section \<open>The claims on the rows\<close>

text \<open>
  Claim C9. For every form state, \<open>removeTechRow(index)\<close> with an index at or beyond the
  number of rows, or a negative one, leaves the rows unchanged; with an index within
  bounds it removes exactly the row at that index and keeps the others in order: there
  is one row less, the rows before the index stay in place, and every row after it
  moves one place down. No other field of the form changes.
\<close>

theorem removeTechRow_effect:
  "((index < 0 \<or> int (length (techs st)) \<le> index) \<longrightarrow> removeTechRow index st = st) \<and>
   (0 \<le> index \<and> index < int (length (techs st)) \<longrightarrow>
      length (techs (removeTechRow index st)) = length (techs st) - 1 \<and>
      (\<forall>j. j < nat index \<longrightarrow> techs (removeTechRow index st) ! j = techs st ! j) \<and>
      (\<forall>j. nat index \<le> j \<and> j < length (techs st) - 1 \<longrightarrow>
           techs (removeTechRow index st) ! j = techs st ! Suc j) \<and>
      name (removeTechRow index st) = name st \<and> email (removeTechRow index st) = email st \<and>
      password (removeTechRow index st) = password st)"
proof (intro conjI impI)
  assume "index < 0 \<or> int (length (techs st)) \<le> index"
  then show "removeTechRow index st = st" by (auto simp: removeTechRow_def)
next
  assume b: "0 \<le> index \<and> index < int (length (techs st))"
  then have k: "nat index < length (techs st)" by linarith
  from b have t: "techs (removeTechRow index st) =
      take (nat index) (techs st) @ drop (Suc (nat index)) (techs st)"
    by (simp add: removeTechRow_def)
  from k show "length (techs (removeTechRow index st)) = length (techs st) - 1"
    unfolding t by simp
  from k show "\<forall>j. j < nat index \<longrightarrow> techs (removeTechRow index st) ! j = techs st ! j"
    unfolding t by (simp add: nth_append)
  from k show "\<forall>j. nat index \<le> j \<and> j < length (techs st) - 1 \<longrightarrow>
           techs (removeTechRow index st) ! j = techs st ! Suc j"
    unfolding t by (auto simp: nth_append min_def)
  from b show "name (removeTechRow index st) = name st"
    and "email (removeTechRow index st) = email st"
    and "password (removeTechRow index st) = password st"
    by (simp_all add: removeTechRow_def)
qed

text \<open>An index beyond the rows, a negative index, and the index of the first row.\<close>

theorem removeTechRow_effect_witness:
  "removeTechRow 2 \<lparr>name = js ''ana'', email = js ''a@b.c'', password = js ''secret1'',
      techs = [\<lparr>title = js ''Go''\<rparr>, \<lparr>title = js ''Rust''\<rparr>]\<rparr> =
     \<lparr>name = js ''ana'', email = js ''a@b.c'', password = js ''secret1'',
      techs = [\<lparr>title = js ''Go''\<rparr>, \<lparr>title = js ''Rust''\<rparr>]\<rparr> \<and>
   removeTechRow (- 1) \<lparr>name = js ''ana'', email = js ''a@b.c'', password = js ''secret1'',
      techs = [\<lparr>title = js ''Go''\<rparr>, \<lparr>title = js ''Rust''\<rparr>]\<rparr> =
     \<lparr>name = js ''ana'', email = js ''a@b.c'', password = js ''secret1'',
      techs = [\<lparr>title = js ''Go''\<rparr>, \<lparr>title = js ''Rust''\<rparr>]\<rparr> \<and>
   length (techs (removeTechRow 0 \<lparr>name = js ''ana'', email = js ''a@b.c'',
      password = js ''secret1'',
      techs = [\<lparr>title = js ''Go''\<rparr>, \<lparr>title = js ''Rust''\<rparr>]\<rparr>)) = 1 \<and>
   techs (removeTechRow 0 \<lparr>name = js ''ana'', email = js ''a@b.c'',
      password = js ''secret1'',
      techs = [\<lparr>title = js ''Go''\<rparr>, \<lparr>title = js ''Rust''\<rparr>]\<rparr>) ! 0 = \<lparr>title = js ''Rust''\<rparr>"
proof -
  let ?st = "\<lparr>name = js ''ana'', email = js ''a@b.c'', password = js ''secret1'',
      techs = [\<lparr>title = js ''Go''\<rparr>, \<lparr>title = js ''Rust''\<rparr>]\<rparr>"
  have a: "removeTechRow 2 ?st = ?st"
    using removeTechRow_effect [of 2 ?st] by simp
  have b: "removeTechRow (- 1) ?st = ?st"
    using removeTechRow_effect [of "- 1" ?st] by simp
  have c: "length (techs (removeTechRow 0 ?st)) = 1"
    and d: "techs (removeTechRow 0 ?st) ! 0 = \<lparr>title = js ''Rust''\<rparr>"
    using removeTechRow_effect [of 0 ?st] by simp_all
  from a b c d show ?thesis by (intro conjI)
qed

text \<open>
  Claim C10 says that a fresh row makes validation fail with \<open>EmptyField\<close> on its title.
  \<open>addNewTech_frame\<close> is the first half of the claim, and \<open>addNewTech_title_issue\<close> the
  second for the inputs on which \<open>validate\<close> returns. On a name with two adjacent spaces
  it does not return: with the fresh row in place \<open>validate\<close> throws, and no error is
  reported for the row.
\<close>

theorem new_row_with_double_space_name_throws:
  "addNewTech \<lparr>name = js ''ana  lima'', email = js ''ana@example.com'',
      password = js ''secret1'', techs = [\<lparr>title = js ''Go''\<rparr>]\<rparr> =
     \<lparr>name = js ''ana  lima'', email = js ''ana@example.com'', password = js ''secret1'',
      techs = [\<lparr>title = js ''Go''\<rparr>, \<lparr>title = []\<rparr>]\<rparr> \<and>
   validate sample_host
     (addNewTech \<lparr>name = js ''ana  lima'', email = js ''ana@example.com'',
      password = js ''secret1'', techs = [\<lparr>title = js ''Go''\<rparr>]\<rparr>) = Threw"
  by (simp add: run)

end
